theory Spec2Isabelle
  imports Main
begin

section \<open>Account and session management of routes/users.js\<close>

text \<open>
  A shallow embedding of the route handlers of \<^verbatim>\<open>src/routes/users.js\<close>. The MongoDB
  collection \<^verbatim>\<open>users\<close> is a list of account documents in insertion order, the
  express-session store is a map from session identifiers to the object bound to
  \<^verbatim>\<open>req.session.user\<close>, and every handler is a function from the state before the
  request to the response and the state after it. What the collaborators return (the
  clock, the bcrypt hasher, the uuid generator, the ObjectId parser, whether a call
  throws) is an argument of the handler. Request fields are strings, as the login and
  registration forms submit them.
\<close>

subsection \<open>Data model\<close>

type_synonym time = int  \<comment> \<open>milliseconds since the epoch, the value of a JS Date\<close>
type_synonym objectId = nat  \<comment> \<open>the \<^verbatim>\<open>_id\<close> of a document\<close>
type_synonym sid = string  \<comment> \<open>the opaque session identifier of a browser\<close>

text \<open>The document built by \<^verbatim>\<open>POST /register\<close>; \<open>oid\<close> is the field \<^verbatim>\<open>_id\<close> that
  \<^verbatim>\<open>insertOne\<close> adds. The two token fields are optional: \<^verbatim>\<open>$unset\<close> removes them.\<close>

record account =
  oid :: objectId
  userId :: string
  firstName :: string
  lastName :: string
  email :: string
  passwordHash :: string
  role :: string
  accountStatus :: string
  isEmailVerified :: bool
  verificationToken :: "string option"
  tokenExpiry :: "time option"
  createdAt :: time
  updatedAt :: time

text \<open>The object that \<^verbatim>\<open>POST /login\<close> stores in \<^verbatim>\<open>req.session.user\<close>.\<close>

record session_user =
  su_userId :: string
  su_firstName :: string
  su_lastName :: string
  su_email :: string
  su_role :: string
  su_isEmailVerified :: bool

record world =
  users :: "account list"
  sessions :: "sid \<rightharpoonup> session_user"

text \<open>What a handler sends: \<^verbatim>\<open>res.send\<close>, \<^verbatim>\<open>res.status(n).send\<close>,
  \<^verbatim>\<open>res.render(view, {title, currentUser})\<close>, \<^verbatim>\<open>res.redirect\<close> and
  \<^verbatim>\<open>res.json({success, message})\<close>.\<close>

datatype response =
    Send string
  | StatusSend nat string
  | Render string string "session_user option"
  | Redirect string
  | Json bool string

subsection \<open>Collection operations\<close>

text \<open>\<^verbatim>\<open>findOne\<close> returns the first document that matches the filter, \<^verbatim>\<open>updateOne\<close>
  changes the first document that matches it (and nothing when none does), and
  \<^verbatim>\<open>insertOne\<close> appends.\<close>

fun findOne :: "(account \<Rightarrow> bool) \<Rightarrow> account list \<Rightarrow> account option" where
  "findOne f [] = None"
| "findOne f (u # us) = (if f u then Some u else findOne f us)"

fun updateOne :: "(account \<Rightarrow> bool) \<Rightarrow> (account \<Rightarrow> account) \<Rightarrow> account list \<Rightarrow> account list" where
  "updateOne f upd [] = []"
| "updateOne f upd (u # us) = (if f u then upd u # us else u # updateOne f upd us)"

definition insertOne :: "account \<Rightarrow> account list \<Rightarrow> account list" where
  "insertOne u us = us @ [u]"

subsection \<open>Strings\<close>

text \<open>\<^verbatim>\<open>String.prototype.toLowerCase\<close> on the letters A to Z. The handlers compare its
  result with the ASCII words \<^verbatim>\<open>admin\<close> and \<^verbatim>\<open>employee\<close> only; no character outside
  A to Z is mapped by JavaScript to a letter of these two words, so the comparisons
  come out the same.\<close>

definition lowerChar :: "char \<Rightarrow> char" where
  "lowerChar c =
     (let n = (of_char c :: nat) in if 65 \<le> n \<and> n \<le> 90 then char_of (n + 32) else c)"

definition toLowerCase :: "string \<Rightarrow> string" where
  "toLowerCase s = map lowerChar s"

subsection \<open>POST /login\<close>

definition somethingWentWrong :: response where
  "somethingWentWrong = Send ''Something went wrong.''"

definition roleRedirect :: "string \<Rightarrow> response" where
  "roleRedirect r =
     (if toLowerCase r = ''admin'' then Redirect ''/users/adminDashboard''
      else if toLowerCase r = ''employee'' then Redirect ''/users/emp-dashboard''
      else Redirect ''/users/dashboard'')"

definition sessionUserOf :: "account \<Rightarrow> session_user" where
  "sessionUserOf user =
     \<lparr> su_userId = userId user, su_firstName = firstName user, su_lastName = lastName user,
       su_email = email user, su_role = role user,
       su_isEmailVerified = isEmailVerified user \<rparr>"

text \<open>\<open>dbOk\<close> is false when \<^verbatim>\<open>getDB\<close> or \<^verbatim>\<open>findOne\<close> throws, which the handler catches;
  \<open>compare\<close> is \<^verbatim>\<open>bcrypt.compare\<close>.\<close>

definition login ::
  "bool \<Rightarrow> (string \<Rightarrow> string \<Rightarrow> bool) \<Rightarrow> sid \<Rightarrow> string \<Rightarrow> string \<Rightarrow> world \<Rightarrow> response \<times> world"
where
  "login dbOk compare s reqEmail reqPassword w =
     (if \<not> dbOk then (somethingWentWrong, w)
      else case findOne (\<lambda>u. email u = reqEmail) (users w) of
        None \<Rightarrow> (Send ''User not found.'', w)
      | Some user \<Rightarrow>
          if \<not> isEmailVerified user then (Send ''Please verify your email first.'', w)
          else if accountStatus user \<noteq> ''active'' then (Send ''Account is not active.'', w)
          else if \<not> compare reqPassword (passwordHash user) then (Send ''Invalid password.'', w)
          else (roleRedirect (role user),
                w\<lparr>sessions := (sessions w)(s \<mapsto> sessionUserOf user)\<rparr>))"

subsection \<open>POST /register\<close>

definition saltRounds :: nat where
  "saltRounds = 12"

record register_body =
  body_email :: string
  body_password :: string
  body_firstName :: string
  body_lastName :: string

text \<open>What the collaborators give one registration: \<open>bcryptHash\<close> is \<^verbatim>\<open>bcrypt.hash\<close>
  with the salt it draws, \<open>tokenUuid\<close> and \<open>userUuid\<close> are the two results of
  \<^verbatim>\<open>uuidv4()\<close> in call order, \<open>currentDate\<close> is \<^verbatim>\<open>new Date()\<close>, \<open>dateNow\<close> the later
  \<^verbatim>\<open>Date.now()\<close>, \<open>newOid\<close> the \<^verbatim>\<open>_id\<close> given by \<^verbatim>\<open>insertOne\<close>. \<open>storeOk\<close> is false
  when a call up to and including \<^verbatim>\<open>insertOne\<close> throws, \<open>mailOk\<close> is false when
  \<^verbatim>\<open>resend.emails.send\<close> throws; both land in the handler's catch.\<close>

record register_env =
  storeOk :: bool
  mailOk :: bool
  bcryptHash :: "string \<Rightarrow> nat \<Rightarrow> string"
  tokenUuid :: string
  userUuid :: string
  currentDate :: time
  dateNow :: time
  newOid :: objectId

definition newUser :: "register_env \<Rightarrow> register_body \<Rightarrow> account" where
  "newUser env body =
     \<lparr> oid = newOid env,
       userId = userUuid env,
       firstName = body_firstName body,
       lastName = body_lastName body,
       email = body_email body,
       passwordHash = bcryptHash env (body_password body) saltRounds,
       role = ''customer'',
       accountStatus = ''active'',
       isEmailVerified = False,
       verificationToken = Some (tokenUuid env),
       tokenExpiry = Some (dateNow env + 3600000),
       createdAt = currentDate env,
       updatedAt = currentDate env \<rparr>"

definition registrationSuccessful :: response where
  "registrationSuccessful =
     Send (''<h2>Registration Successful!</h2>'' @ [CHR 0x0A] @
           ''      <p>Please check your email to verify your account.</p>'')"

definition register :: "register_env \<Rightarrow> register_body \<Rightarrow> world \<Rightarrow> response \<times> world" where
  "register env body w =
     (if \<not> storeOk env then (somethingWentWrong, w)
      else case findOne (\<lambda>u. email u = body_email body) (users w) of
        Some existingUser \<Rightarrow> (Send ''User already exists with this email.'', w)
      | None \<Rightarrow>
          (let w' = w\<lparr>users := insertOne (newUser env body) (users w)\<rparr>
           in if \<not> mailOk env then (somethingWentWrong, w')
              else (registrationSuccessful, w')))"

subsection \<open>GET /verify/:token\<close>

text \<open>\<^verbatim>\<open>user.tokenExpiry < new Date()\<close>; a missing expiry compares false.\<close>

definition tokenExpired :: "account \<Rightarrow> time \<Rightarrow> bool" where
  "tokenExpired user now = (case tokenExpiry user of None \<Rightarrow> False | Some t \<Rightarrow> t < now)"

definition emailVerified :: response where
  "emailVerified =
     Send (''<h2>Email Verified!</h2>'' @ [CHR 0x0A] @
           ''      <p>Your account is now verified.</p>'' @ [CHR 0x0A] @
           ''      <a href='' @ [CHR 0x22] @ ''/users/login'' @ [CHR 0x22] @ ''>Login</a>'')"

definition markVerified :: "account \<Rightarrow> account" where
  "markVerified u = u\<lparr>isEmailVerified := True, verificationToken := None, tokenExpiry := None\<rparr>"

definition verify :: "bool \<Rightarrow> time \<Rightarrow> string \<Rightarrow> world \<Rightarrow> response \<times> world" where
  "verify dbOk now token w =
     (if \<not> dbOk then (somethingWentWrong, w)
      else case findOne (\<lambda>u. verificationToken u = Some token) (users w) of
        None \<Rightarrow> (Send ''Invalid or expired verification link.'', w)
      | Some user \<Rightarrow>
          if tokenExpired user now then (Send ''Verification link expired.'', w)
          else (emailVerified,
                w\<lparr>users := updateOne (\<lambda>u. verificationToken u = Some token) markVerified (users w)\<rparr>))"

subsection \<open>Dashboards\<close>

definition accessDenied :: response where
  "accessDenied = StatusSend 403 ''Access denied.''"

definition dashboard :: "sid \<Rightarrow> world \<Rightarrow> response \<times> world" where
  "dashboard s w = (Render ''dashboard'' ''Dashboard | ONEJA POS'' (sessions w s), w)"

definition empDashboard :: "sid \<Rightarrow> world \<Rightarrow> response \<times> world" where
  "empDashboard s w =
     (case sessions w s of
        None \<Rightarrow> (accessDenied, w)
      | Some user \<Rightarrow>
          if toLowerCase (su_role user) \<noteq> ''employee'' then (accessDenied, w)
          else (Render ''emp-dashboard'' ''Employee Dashboard | ONEJA POS'' (sessions w s), w))"

definition adminDashboard :: "sid \<Rightarrow> world \<Rightarrow> response \<times> world" where
  "adminDashboard s w =
     (case sessions w s of
        None \<Rightarrow> (accessDenied, w)
      | Some user \<Rightarrow>
          if toLowerCase (su_role user) \<noteq> ''admin'' then (accessDenied, w)
          else (Render ''adminDashboard'' ''Admin Dashboard | ONEJA POS'' (sessions w s), w))"

definition reports :: "sid \<Rightarrow> world \<Rightarrow> response \<times> world" where
  "reports s w =
     (case sessions w s of
        None \<Rightarrow> (accessDenied, w)
      | Some user \<Rightarrow>
          if toLowerCase (su_role user) \<noteq> ''admin'' then (accessDenied, w)
          else (Render ''reports'' ''Reports | ONEJA POS'' (sessions w s), w))"

subsection \<open>Admin actions\<close>

text \<open>\<open>mkObjectId\<close> is \<^verbatim>\<open>new ObjectId(userId)\<close>, which throws on a string that is no
  object id (\<open>None\<close>); \<open>dbOk\<close> is false when \<^verbatim>\<open>getDB\<close> or \<^verbatim>\<open>updateOne\<close> throws; \<open>now\<close>
  is \<^verbatim>\<open>new Date()\<close>.\<close>

definition updateRole ::
  "bool \<Rightarrow> (string \<Rightarrow> objectId option) \<Rightarrow> time \<Rightarrow> string \<Rightarrow> string \<Rightarrow> world \<Rightarrow> response \<times> world"
where
  "updateRole dbOk mkObjectId now reqUserId newRole w =
     (if \<not> dbOk then (Json False ''Error updating role'', w)
      else case mkObjectId reqUserId of
        None \<Rightarrow> (Json False ''Error updating role'', w)
      | Some i \<Rightarrow>
          (Json True (''Role updated to '' @ newRole),
           w\<lparr>users := updateOne (\<lambda>u. oid u = i) (\<lambda>u. u\<lparr>role := newRole, updatedAt := now\<rparr>)
                        (users w)\<rparr>))"

definition archiveEmployee ::
  "bool \<Rightarrow> (string \<Rightarrow> objectId option) \<Rightarrow> time \<Rightarrow> string \<Rightarrow> world \<Rightarrow> response \<times> world"
where
  "archiveEmployee dbOk mkObjectId now reqUserId w =
     (if \<not> dbOk then (Json False ''Error archiving employee'', w)
      else case mkObjectId reqUserId of
        None \<Rightarrow> (Json False ''Error archiving employee'', w)
      | Some i \<Rightarrow>
          (Json True ''Employee marked as Resigned'',
           w\<lparr>users := updateOne (\<lambda>u. oid u = i)
                        (\<lambda>u. u\<lparr>accountStatus := ''resigned'', updatedAt := now\<rparr>) (users w)\<rparr>))"

subsection \<open>The role-gated routes and the words of the specification\<close>

text \<open>The three routes of the router that check a role, the role the interface table
  of the specification requires for each, and the router's dispatch to their handlers.\<close>

datatype gated_route = EmpDashboardRoute | AdminDashboardRoute | ReportsRoute

fun requiredRole :: "gated_route \<Rightarrow> string" where
  "requiredRole EmpDashboardRoute = ''employee''"
| "requiredRole AdminDashboardRoute = ''admin''"
| "requiredRole ReportsRoute = ''admin''"

fun gatedGet :: "gated_route \<Rightarrow> sid \<Rightarrow> world \<Rightarrow> response \<times> world" where
  "gatedGet EmpDashboardRoute = empDashboard"
| "gatedGet AdminDashboardRoute = adminDashboard"
| "gatedGet ReportsRoute = reports"

fun gatedView :: "gated_route \<Rightarrow> string \<times> string" where
  "gatedView EmpDashboardRoute = (''emp-dashboard'', ''Employee Dashboard | ONEJA POS'')"
| "gatedView AdminDashboardRoute = (''adminDashboard'', ''Admin Dashboard | ONEJA POS'')"
| "gatedView ReportsRoute = (''reports'', ''Reports | ONEJA POS'')"

text \<open>The specification's decision \<open>Allow(route, session)\<close>: a principal is bound to the
  session and its role equals the required role, compared without regard to case.\<close>

definition equalsIgnoreCase :: "string \<Rightarrow> string \<Rightarrow> bool" where
  "equalsIgnoreCase a b = (toLowerCase a = toLowerCase b)"

definition Allow :: "gated_route \<Rightarrow> session_user option \<Rightarrow> bool" where
  "Allow r bound =
     (case bound of None \<Rightarrow> False | Some u \<Rightarrow> equalsIgnoreCase (su_role u) (requiredRole r))"

text \<open>The tokens carried by the accounts of a collection, and the state in which no two
  accounts carry the same one (what a generator of fresh tokens maintains).\<close>

definition tokenOf :: "account \<Rightarrow> string list" where
  "tokenOf u = (case verificationToken u of None \<Rightarrow> [] | Some t \<Rightarrow> [t])"

definition tokensOf :: "account list \<Rightarrow> string list" where
  "tokensOf us = concat (map tokenOf us)"

definition tokensDistinct :: "account list \<Rightarrow> bool" where
  "tokensDistinct us = distinct (tokensOf us)"

subsection \<open>A small deployment for evaluating the handlers\<close>

text \<open>Stand-ins for the collaborators, used only where a theorem is run on a concrete
  state: a hasher, the comparison that goes with it, and an ObjectId parser.\<close>

definition demoHash :: "string \<Rightarrow> nat \<Rightarrow> string" where
  "demoHash p r = ''$2b$'' @ rev p"

definition demoCompare :: "string \<Rightarrow> string \<Rightarrow> bool" where
  "demoCompare p h = (h = demoHash p saltRounds)"

definition demoObjectId :: "string \<Rightarrow> objectId option" where
  "demoObjectId x =
     (if x = ''0a'' then Some 10 else if x = ''0b'' then Some 11 else if x = ''0c'' then Some 12
      else if x = ''0d'' then Some 13 else None)"

definition ann :: account where
  "ann = \<lparr> oid = 10, userId = ''u-ann'', firstName = ''Ann'', lastName = ''A'',
           email = ''ann@x.com'', passwordHash = ''$2b$1wp'', role = ''Admin'',
           accountStatus = ''active'', isEmailVerified = True, verificationToken = None,
           tokenExpiry = None, createdAt = 100, updatedAt = 100 \<rparr>"

definition bob :: account where
  "bob = \<lparr> oid = 11, userId = ''u-bob'', firstName = ''Bob'', lastName = ''B'',
           email = ''bob@x.com'', passwordHash = ''$2b$2wp'', role = ''employee'',
           accountStatus = ''resigned'', isEmailVerified = True, verificationToken = None,
           tokenExpiry = None, createdAt = 200, updatedAt = 250 \<rparr>"

definition cat :: account where
  "cat = \<lparr> oid = 12, userId = ''u-cat'', firstName = ''Cat'', lastName = ''C'',
           email = ''cat@x.com'', passwordHash = ''$2b$3wp'', role = ''customer'',
           accountStatus = ''active'', isEmailVerified = False, verificationToken = Some ''tok-cat'',
           tokenExpiry = Some 5000, createdAt = 300, updatedAt = 300 \<rparr>"

definition dan :: account where
  "dan = \<lparr> oid = 13, userId = ''u-dan'', firstName = ''Dan'', lastName = ''D'',
           email = ''dan@x.com'', passwordHash = ''$2b$4wp'', role = ''manager'',
           accountStatus = ''active'', isEmailVerified = True, verificationToken = None,
           tokenExpiry = None, createdAt = 400, updatedAt = 400 \<rparr>"

definition demoWorld :: world where
  "demoWorld = \<lparr> users = [ann, bob, cat, dan],
                 sessions = [''s-ann'' \<mapsto> sessionUserOf ann, ''s-bob'' \<mapsto> sessionUserOf bob] \<rparr>"

definition demoEnv :: register_env where
  "demoEnv = \<lparr> storeOk = True, mailOk = True, bcryptHash = demoHash, tokenUuid = ''tok-eve'',
               userUuid = ''u-eve'', currentDate = 1000, dateNow = 1002, newOid = 14 \<rparr>"

definition demoBody :: register_body where
  "demoBody = \<lparr> body_email = ''eve@x.com'', body_password = ''pw5'', body_firstName = ''Eve'',
                body_lastName = ''E'' \<rparr>"

section \<open>Properties\<close>

subsection \<open>Facts about the collection operations\<close>

lemma findOne_None_iff: "findOne f us = None \<longleftrightarrow> (\<forall>u\<in>set us. \<not> f u)"
  by (induction us) auto

lemma findOne_SomeD: "findOne f us = Some a \<Longrightarrow> f a \<and> a \<in> set us"
  by (induction us) (auto split: if_splits)

lemma findOne_split:
  "findOne f us = Some a \<Longrightarrow> \<exists>pre post. us = pre @ a # post \<and> (\<forall>x\<in>set pre. \<not> f x)"
proof (induction us)
  case Nil
  then show ?case by simp
next
  case (Cons u us)
  show ?case
  proof (cases "f u")
    case True
    with Cons.prems have "u = a" by simp
    then have "u # us = [] @ a # us \<and> (\<forall>x\<in>set []. \<not> f x)" by simp
    then show ?thesis by blast
  next
    case False
    with Cons obtain pre post where "us = pre @ a # post" "\<forall>x\<in>set pre. \<not> f x" by auto
    with False have "u # us = (u # pre) @ a # post \<and> (\<forall>x\<in>set (u # pre). \<not> f x)" by simp
    then show ?thesis by blast
  qed
qed

lemma updateOne_split:
  "(\<forall>x\<in>set pre. \<not> f x) \<Longrightarrow> f a \<Longrightarrow> updateOne f upd (pre @ a # post) = pre @ upd a # post"
  by (induction pre) auto

lemma findOne_append:
  "findOne f (xs @ ys) = (case findOne f xs of None \<Rightarrow> findOne f ys | Some a \<Rightarrow> Some a)"
  by (induction xs) auto

lemma filter_single_split:
  "filter f us = [a] \<Longrightarrow>
     \<exists>pre post. us = pre @ a # post \<and> (\<forall>x\<in>set pre. \<not> f x) \<and> (\<forall>x\<in>set post. \<not> f x) \<and> f a"
proof (induction us)
  case Nil
  then show ?case by simp
next
  case (Cons u us)
  show ?case
  proof (cases "f u")
    case True
    with Cons.prems have ua: "u = a" and rest: "filter f us = []" by simp_all
    from rest have "\<forall>x\<in>set us. \<not> f x" by (simp add: filter_empty_conv)
    with ua True have "u # us = [] @ a # us \<and> (\<forall>x\<in>set []. \<not> f x) \<and> (\<forall>x\<in>set us. \<not> f x) \<and> f a"
      by simp
    then show ?thesis by blast
  next
    case False
    with Cons obtain pre post where
      "us = pre @ a # post" "\<forall>x\<in>set pre. \<not> f x" "\<forall>x\<in>set post. \<not> f x" "f a" by auto
    with False have "u # us = (u # pre) @ a # post \<and> (\<forall>x\<in>set (u # pre). \<not> f x)
        \<and> (\<forall>x\<in>set post. \<not> f x) \<and> f a" by simp
    then show ?thesis by blast
  qed
qed

lemma toLowerCase_admin: "toLowerCase ''admin'' = ''admin''"
  by code_simp

lemma toLowerCase_employee: "toLowerCase ''employee'' = ''employee''"
  by code_simp

lemma toLowerCase_customer: "toLowerCase ''customer'' = ''customer''"
  by code_simp

lemma gatedGet_unfold:
  "gatedGet r s w =
     (case sessions w s of
        None \<Rightarrow> (accessDenied, w)
      | Some u \<Rightarrow>
          if toLowerCase (su_role u) \<noteq> requiredRole r then (accessDenied, w)
          else (Render (fst (gatedView r)) (snd (gatedView r)) (sessions w s), w))"
  by (cases r) (simp_all add: empDashboard_def adminDashboard_def reports_def split: option.split)

lemma requiredRole_lower: "toLowerCase (requiredRole r) = requiredRole r"
  by (cases r) (simp_all add: toLowerCase_admin toLowerCase_employee)

lemma split_unique:
  "pre @ a # post = pre' @ a' # post' \<Longrightarrow> (\<forall>x\<in>set pre. \<not> f x) \<Longrightarrow> (\<forall>x\<in>set pre'. \<not> f x) \<Longrightarrow>
     f a \<Longrightarrow> f a' \<Longrightarrow> pre = pre' \<and> a = a' \<and> post = post'"
proof (induction pre arbitrary: pre')
  case Nil
  then show ?case by (cases pre') auto
next
  case (Cons x pre)
  show ?case
  proof (cases pre')
    case Nil
    with Cons.prems show ?thesis by auto
  next
    case (Cons y ys)
    with Cons.prems have "x = y" "pre @ a # post = ys @ a' # post'"
      "\<forall>x\<in>set pre. \<not> f x" "\<forall>x\<in>set ys. \<not> f x" by simp_all
    with Cons.IH [of ys] Cons.prems(4,5) Cons show ?thesis by simp
  qed
qed

lemma updateOne_found:
  assumes "findOne f us = Some a"
  shows "\<exists>pre post. us = pre @ a # post \<and> (\<forall>x\<in>set pre. \<not> f x)
           \<and> updateOne f upd us = pre @ upd a # post"
proof -
  from findOne_split [OF assms] obtain pre post where
    s: "us = pre @ a # post" and p: "\<forall>x\<in>set pre. \<not> f x" by blast
  from findOne_SomeD [OF assms] have "f a" by simp
  with p have "updateOne f upd (pre @ a # post) = pre @ upd a # post"
    by (rule updateOne_split)
  with s p show ?thesis by blast
qed

lemma gatedGet_sessions:
  "sessions w' = sessions w \<Longrightarrow> fst (gatedGet r s w') = fst (gatedGet r s w)"
  by (simp add: gatedGet_unfold split: option.split)

lemma tokenExpired_iff: "tokenExpired a now \<longleftrightarrow> (\<exists>t. tokenExpiry a = Some t \<and> t < now)"
  by (simp add: tokenExpired_def split: option.split)

subsection \<open>Verification tokens stay distinct\<close>

text \<open>A token that the generator has not handed out before keeps the tokens of the
  collection distinct, no handler breaks this, and then the account that \<^verbatim>\<open>findOne\<close> returns
  for a token is its only holder.\<close>

lemma tokensOf_Cons: "tokensOf (u # us) = tokenOf u @ tokensOf us"
  by (simp add: tokensOf_def)

lemma tokensOf_Nil: "tokensOf [] = []"
  by (simp add: tokensOf_def)

lemma tokensOf_append: "tokensOf (xs @ ys) = tokensOf xs @ tokensOf ys"
  by (simp add: tokensOf_def)

lemma token_in_tokensOf: "u \<in> set us \<Longrightarrow> verificationToken u = Some t \<Longrightarrow> t \<in> set (tokensOf us)"
  by (auto simp: tokensOf_def tokenOf_def intro!: bexI [of _ u])

lemma tokensDistinct_sole_holder:
  "tokensDistinct us \<Longrightarrow> findOne (\<lambda>u. verificationToken u = Some t) us = Some a \<Longrightarrow>
     filter (\<lambda>u. verificationToken u = Some t) us = [a]"
proof (induction us)
  case Nil
  then show ?case by simp
next
  case (Cons u us)
  from Cons.prems(1) have d: "tokensDistinct us"
    by (simp add: tokensDistinct_def tokensOf_Cons)
  show ?case
  proof (cases "verificationToken u = Some t")
    case True
    with Cons.prems(2) have ua: "u = a" by simp
    from True Cons.prems(1) have "t \<notin> set (tokensOf us)"
      by (simp add: tokensDistinct_def tokensOf_Cons tokenOf_def)
    then have "\<forall>x\<in>set us. verificationToken x \<noteq> Some t"
      using token_in_tokensOf by blast
    then have "filter (\<lambda>u. verificationToken u = Some t) us = []"
      by (simp add: filter_empty_conv)
    with True ua show ?thesis by simp
  next
    case False
    with Cons.prems(2) have "findOne (\<lambda>u. verificationToken u = Some t) us = Some a" by simp
    with Cons.IH d False show ?thesis by simp
  qed
qed

lemma register_tokensDistinct:
  "tokensDistinct (users w) \<Longrightarrow> tokenUuid env \<notin> set (tokensOf (users w)) \<Longrightarrow>
     tokensDistinct (users (snd (register env body w)))"
  by (simp add: register_def insertOne_def tokensDistinct_def tokensOf_append newUser_def
      tokensOf_Cons tokenOf_def tokensOf_Nil Let_def split: option.split)

lemma tokensOf_updateOne_subset:
  "(\<And>u. set (tokenOf (upd u)) \<subseteq> set (tokenOf u)) \<Longrightarrow>
     set (tokensOf (updateOne f upd us)) \<subseteq> set (tokensOf us)"
  by (induction us) (auto simp: tokensOf_Cons tokensOf_Nil)

lemma updateOne_tokensDistinct:
  assumes upd: "\<And>u. tokenOf (upd u) = tokenOf u \<or> tokenOf (upd u) = []"
  shows "tokensDistinct us \<Longrightarrow> tokensDistinct (updateOne f upd us)"
proof (induction us)
  case Nil
  then show ?case by simp
next
  case (Cons u us)
  have sub: "set (tokenOf (upd x)) \<subseteq> set (tokenOf x)" for x
    using upd [of x] by auto
  have inner: "set (tokensOf (updateOne f upd us)) \<subseteq> set (tokensOf us)"
    by (rule tokensOf_updateOne_subset) (rule sub)
  from Cons.prems have d: "distinct (tokenOf u)" "distinct (tokensOf us)"
    "set (tokenOf u) \<inter> set (tokensOf us) = {}"
    by (simp_all add: tokensDistinct_def tokensOf_Cons)
  from Cons.IH d(2) have ih: "distinct (tokensOf (updateOne f upd us))"
    by (simp add: tokensDistinct_def)
  show ?case
  proof (cases "f u")
    case True
    from upd [of u] d have "distinct (tokenOf (upd u) @ tokensOf us)" by auto
    with True show ?thesis by (simp add: tokensDistinct_def tokensOf_Cons)
  next
    case False
    from d inner ih have "distinct (tokenOf u @ tokensOf (updateOne f upd us))" by auto
    with False show ?thesis by (simp add: tokensDistinct_def tokensOf_Cons)
  qed
qed

lemma verify_tokensDistinct:
  "tokensDistinct (users w) \<Longrightarrow> tokensDistinct (users (snd (verify dbOk now token w)))"
  by (auto simp: verify_def tokenOf_def markVerified_def split: option.split
      intro!: updateOne_tokensDistinct)

lemma updateRole_tokensDistinct:
  "tokensDistinct (users w) \<Longrightarrow>
     tokensDistinct (users (snd (updateRole dbOk mkObjectId now reqUserId newRole w)))"
  by (auto simp: updateRole_def tokenOf_def split: option.split intro!: updateOne_tokensDistinct)

lemma archiveEmployee_tokensDistinct:
  "tokensDistinct (users w) \<Longrightarrow>
     tokensDistinct (users (snd (archiveEmployee dbOk mkObjectId now reqUserId w)))"
  by (auto simp: archiveEmployee_def tokenOf_def split: option.split
      intro!: updateOne_tokensDistinct)

lemma login_users: "users (snd (login dbOk cmp s e p w)) = users w"
  by (simp add: login_def split: option.split)

subsection \<open>Evaluation of the sample deployment\<close>

lemmas demo_defs = demoWorld_def ann_def bob_def cat_def dan_def demoHash_def demoCompare_def
  demoObjectId_def demoEnv_def demoBody_def saltRounds_def sessionUserOf_def

subsection \<open>Login\<close>

text \<open>
  Claim C1. A login request runs four checks in a fixed order, and the first one that
  fails decides the response: no account for the email gives \<^verbatim>\<open>User not found.\<close>
  (NotFound); an account that is not verified gives \<^verbatim>\<open>Please verify your email first.\<close>
  (EmailNotVerified), whatever the password; a verified account whose status is not
  \<^verbatim>\<open>active\<close> gives \<^verbatim>\<open>Account is not active.\<close> (AccountInactive), also for a resigned
  account with the right password; a verified, active account with a password that
  \<^verbatim>\<open>bcrypt.compare\<close> rejects gives \<^verbatim>\<open>Invalid password.\<close> (InvalidCredentials). A failed
  login leaves the state as it was; when all four pass the session is bound and the
  response is the redirect of the role. The four messages are different strings. The
  account for an email is the first document that \<^verbatim>\<open>findOne\<close> matches.
\<close>

theorem login_checks_in_order:
  "((\<forall>u\<in>set (users w). email u \<noteq> e) \<longrightarrow>
      login True cmp s e p w = (Send ''User not found.'', w))
   \<and> (findOne (\<lambda>u. email u = e) (users w) = Some a \<longrightarrow>
        (\<not> isEmailVerified a \<longrightarrow>
           login True cmp s e p w = (Send ''Please verify your email first.'', w))
      \<and> (isEmailVerified a \<and> accountStatus a \<noteq> ''active'' \<longrightarrow>
           login True cmp s e p w = (Send ''Account is not active.'', w))
      \<and> (isEmailVerified a \<and> accountStatus a = ''resigned'' \<and> cmp p (passwordHash a) \<longrightarrow>
           login True cmp s e p w = (Send ''Account is not active.'', w))
      \<and> (isEmailVerified a \<and> accountStatus a = ''active'' \<and> \<not> cmp p (passwordHash a) \<longrightarrow>
           login True cmp s e p w = (Send ''Invalid password.'', w))
      \<and> (isEmailVerified a \<and> accountStatus a = ''active'' \<and> cmp p (passwordHash a) \<longrightarrow>
           login True cmp s e p w =
             (roleRedirect (role a), w\<lparr>sessions := (sessions w)(s \<mapsto> sessionUserOf a)\<rparr>)))"
proof -
  have none: "(\<forall>u\<in>set (users w). email u \<noteq> e) \<Longrightarrow> findOne (\<lambda>u. email u = e) (users w) = None"
    by (simp add: findOne_None_iff)
  show ?thesis
    by (auto simp: login_def none)
qed

theorem login_checks_in_order_witness:
  "login True demoCompare ''s1'' ''zed@x.com'' ''pw1'' demoWorld = (Send ''User not found.'', demoWorld)
   \<and> login True demoCompare ''s1'' ''cat@x.com'' ''pw3'' demoWorld
       = (Send ''Please verify your email first.'', demoWorld)
   \<and> login True demoCompare ''s1'' ''cat@x.com'' ''bad'' demoWorld
       = (Send ''Please verify your email first.'', demoWorld)
   \<and> login True demoCompare ''s1'' ''bob@x.com'' ''pw2'' demoWorld
       = (Send ''Account is not active.'', demoWorld)
   \<and> login True demoCompare ''s1'' ''ann@x.com'' ''bad'' demoWorld
       = (Send ''Invalid password.'', demoWorld)
   \<and> fst (login True demoCompare ''s1'' ''ann@x.com'' ''pw1'' demoWorld)
       = Redirect ''/users/adminDashboard''"
proof -
  have zed: "\<forall>u\<in>set (users demoWorld). email u \<noteq> ''zed@x.com''"
    by (simp add: demo_defs)
  have cat: "findOne (\<lambda>u. email u = ''cat@x.com'') (users demoWorld) = Some cat"
    "\<not> isEmailVerified cat" "demoCompare ''pw3'' (passwordHash cat)"
    "\<not> demoCompare ''bad'' (passwordHash cat)"
    by (simp_all add: demo_defs)
  have bob: "findOne (\<lambda>u. email u = ''bob@x.com'') (users demoWorld) = Some bob"
    "isEmailVerified bob" "accountStatus bob = ''resigned''" "demoCompare ''pw2'' (passwordHash bob)"
    by (simp_all add: demo_defs)
  have ann: "findOne (\<lambda>u. email u = ''ann@x.com'') (users demoWorld) = Some ann"
    "isEmailVerified ann" "accountStatus ann = ''active''" "demoCompare ''pw1'' (passwordHash ann)"
    "\<not> demoCompare ''bad'' (passwordHash ann)"
    by (simp_all add: demo_defs)
  have r: "roleRedirect (role ann) = Redirect ''/users/adminDashboard''"
    unfolding ann_def by code_simp
  show ?thesis
    using login_checks_in_order [where w = demoWorld and e = "''zed@x.com''" and cmp = demoCompare and s = "''s1''" and p = "''pw1''"] zed
      login_checks_in_order [where w = demoWorld and e = "''cat@x.com''" and a = cat and cmp = demoCompare and s = "''s1''" and p = "''pw3''"]
      login_checks_in_order [where w = demoWorld and e = "''cat@x.com''" and a = cat and cmp = demoCompare and s = "''s1''" and p = "''bad''"]
      login_checks_in_order [where w = demoWorld and e = "''bob@x.com''" and a = bob and cmp = demoCompare and s = "''s1''" and p = "''pw2''"]
      login_checks_in_order [where w = demoWorld and e = "''ann@x.com''" and a = ann and cmp = demoCompare and s = "''s1''" and p = "''bad''"]
      login_checks_in_order [where w = demoWorld and e = "''ann@x.com''" and a = ann and cmp = demoCompare and s = "''s1''" and p = "''pw1''"]
      cat bob ann r
    by simp
qed

text \<open>
  Claim C10. A login that passes the four checks and whose stored role, in lower case, is
  neither \<^verbatim>\<open>admin\<close> nor \<^verbatim>\<open>employee\<close> is redirected to \<^verbatim>\<open>/users/dashboard\<close>; the role
  is any string, inside the set customer, employee, admin or not.
\<close>

theorem login_default_redirect:
  assumes "findOne (\<lambda>u. email u = e) (users w) = Some a"
    and "isEmailVerified a" and "accountStatus a = ''active''" and "cmp p (passwordHash a)"
    and "toLowerCase (role a) \<noteq> ''admin''" and "toLowerCase (role a) \<noteq> ''employee''"
  shows "login True cmp s e p w =
           (Redirect ''/users/dashboard'', w\<lparr>sessions := (sessions w)(s \<mapsto> sessionUserOf a)\<rparr>)"
  using assms by (simp add: login_def roleRedirect_def)

theorem login_default_redirect_witness:
  "fst (login True demoCompare ''s-dan'' ''dan@x.com'' ''pw4'' demoWorld) = Redirect ''/users/dashboard''
   \<and> role dan = ''manager''"
proof -
  have f: "findOne (\<lambda>u. email u = ''dan@x.com'') (users demoWorld) = Some dan"
    and v: "isEmailVerified dan" and st: "accountStatus dan = ''active''"
    and c: "demoCompare ''pw4'' (passwordHash dan)" and r: "role dan = ''manager''"
    by (simp_all add: demo_defs)
  have l: "toLowerCase (role dan) = ''manager''"
    unfolding dan_def by code_simp
  have na: "toLowerCase (role dan) \<noteq> ''admin''" and ne: "toLowerCase (role dan) \<noteq> ''employee''"
    by (simp_all add: l)
  from login_default_redirect [where cmp = demoCompare and p = "''pw4''" and s = "''s-dan''",
      OF f v st c na ne] r show ?thesis by simp
qed

subsection \<open>Access control\<close>

text \<open>
  Claim C3. On the three role-gated routes (employee dashboard, admin dashboard, reports)
  and in every session state, the view is rendered exactly when a principal is bound to
  the session and its role, in lower case, is the required role of the route; in every
  other case, a missing session like a wrong role, the response is status 403 with the
  body \<^verbatim>\<open>Access denied.\<close>, which is no redirect. The state, sessions included, is never
  changed. For the roles customer, employee and admin the decision is equality with the
  required role.
\<close>

theorem role_gate_decision:
  "snd (gatedGet r s w) = w
   \<and> fst (gatedGet r s w) =
       (if Allow r (sessions w s)
        then Render (fst (gatedView r)) (snd (gatedView r)) (sessions w s)
        else StatusSend 403 ''Access denied.'')
   \<and> (Allow r (sessions w s) \<longleftrightarrow>
        (\<exists>u. sessions w s = Some u \<and> toLowerCase (su_role u) = toLowerCase (requiredRole r)))
   \<and> (sessions w s = None \<longrightarrow> gatedGet r s w = (StatusSend 403 ''Access denied.'', w))
   \<and> (sessions w s = Some u \<and> su_role u \<in> {''customer'', ''employee'', ''admin''} \<longrightarrow>
        (Allow r (sessions w s) \<longleftrightarrow> su_role u = requiredRole r))"
proof -
  have frame: "snd (gatedGet r s w) = w"
    by (simp add: gatedGet_unfold split: option.split)
  have resp: "fst (gatedGet r s w) =
       (if Allow r (sessions w s)
        then Render (fst (gatedView r)) (snd (gatedView r)) (sessions w s)
        else StatusSend 403 ''Access denied.'')"
    by (simp add: gatedGet_unfold Allow_def equalsIgnoreCase_def requiredRole_lower
        accessDenied_def split: option.split)
  have allow: "Allow r (sessions w s) \<longleftrightarrow>
        (\<exists>u. sessions w s = Some u \<and> toLowerCase (su_role u) = toLowerCase (requiredRole r))"
    by (simp add: Allow_def equalsIgnoreCase_def split: option.split)
  have missing: "sessions w s = None \<longrightarrow> gatedGet r s w = (StatusSend 403 ''Access denied.'', w)"
    by (simp add: gatedGet_unfold accessDenied_def)
  have closed: "sessions w s = Some u \<and> su_role u \<in> {''customer'', ''employee'', ''admin''} \<longrightarrow>
        (Allow r (sessions w s) \<longleftrightarrow> su_role u = requiredRole r)"
    by (cases r)
      (auto simp: Allow_def equalsIgnoreCase_def toLowerCase_admin toLowerCase_employee
        toLowerCase_customer)
  from frame resp allow missing closed show ?thesis by blast
qed

theorem role_gate_decision_witness:
  "gatedGet AdminDashboardRoute ''s-ann'' demoWorld
     = (Render ''adminDashboard'' ''Admin Dashboard | ONEJA POS'' (Some (sessionUserOf ann)), demoWorld)
   \<and> gatedGet EmpDashboardRoute ''s-ann'' demoWorld = (StatusSend 403 ''Access denied.'', demoWorld)
   \<and> gatedGet ReportsRoute ''s-none'' demoWorld = (StatusSend 403 ''Access denied.'', demoWorld)
   \<and> Allow EmpDashboardRoute (sessions demoWorld ''s-bob'')"
proof -
  have sa: "sessions demoWorld ''s-ann'' = Some (sessionUserOf ann)"
    and sb: "sessions demoWorld ''s-bob'' = Some (sessionUserOf bob)"
    and sn: "sessions demoWorld ''s-none'' = None"
    by (simp_all add: demoWorld_def)
  have la: "toLowerCase (su_role (sessionUserOf ann)) = ''admin''"
    unfolding sessionUserOf_def ann_def by code_simp
  have rb: "su_role (sessionUserOf bob) = ''employee''"
    by (simp add: sessionUserOf_def bob_def)
  have a1: "Allow AdminDashboardRoute (sessions demoWorld ''s-ann'')"
    using role_gate_decision [where r = AdminDashboardRoute and s = "''s-ann''" and w = demoWorld]
      sa la by (simp add: toLowerCase_admin)
  have a2: "\<not> Allow EmpDashboardRoute (sessions demoWorld ''s-ann'')"
    using role_gate_decision [where r = EmpDashboardRoute and s = "''s-ann''" and w = demoWorld]
      sa la by (simp add: toLowerCase_employee)
  have a3: "Allow EmpDashboardRoute (sessions demoWorld ''s-bob'')"
    using role_gate_decision [where r = EmpDashboardRoute and s = "''s-bob''" and w = demoWorld
        and u = "sessionUserOf bob"] sb rb by simp
  show ?thesis
    using role_gate_decision [where r = AdminDashboardRoute and s = "''s-ann''" and w = demoWorld]
      role_gate_decision [where r = EmpDashboardRoute and s = "''s-ann''" and w = demoWorld]
      role_gate_decision [where r = ReportsRoute and s = "''s-none''" and w = demoWorld]
      a1 a2 a3 sa sn
    by (simp add: prod_eq_iff)
qed

text \<open>
  Claim C4. A request to \<^verbatim>\<open>GET /users/dashboard\<close> without a principal bound to its
  session should be denied. The handler does not do so: it has no session check, and on
  a session without a principal it renders the customer dashboard with \<^verbatim>\<open>currentUser\<close>
  undefined, where the employee dashboard, the admin dashboard and the reports view
  answer the same request with status 403 and \<^verbatim>\<open>Access denied.\<close>
\<close>

theorem dashboard_unguarded:
  "sessions demoWorld ''s-none'' = None
   \<and> dashboard ''s-none'' demoWorld = (Render ''dashboard'' ''Dashboard | ONEJA POS'' None, demoWorld)
   \<and> fst (dashboard ''s-none'' demoWorld) \<noteq> accessDenied
   \<and> fst (empDashboard ''s-none'' demoWorld) = accessDenied
   \<and> fst (adminDashboard ''s-none'' demoWorld) = accessDenied
   \<and> fst (reports ''s-none'' demoWorld) = accessDenied"
  by (simp add: dashboard_def empDashboard_def adminDashboard_def reports_def demoWorld_def
      accessDenied_def)

subsection \<open>Registration\<close>

text \<open>
  Claim C5. When an account with the submitted email is already in the collection,
  registration inserts nothing: the state after the request is the state before it, and
  (the store answering) the response is the rejection
  \<^verbatim>\<open>User already exists with this email.\<close> (ValidationFailure).
\<close>

theorem register_duplicate_email:
  assumes "u \<in> set (users w)" and "email u = body_email body"
  shows "snd (register env body w) = w
    \<and> (storeOk env \<longrightarrow>
         register env body w = (Send ''User already exists with this email.'', w))"
proof -
  from assms have "findOne (\<lambda>u. email u = body_email body) (users w) \<noteq> None"
    by (auto simp: findOne_None_iff)
  then obtain x where "findOne (\<lambda>u. email u = body_email body) (users w) = Some x" by blast
  then show ?thesis by (simp add: register_def)
qed

theorem register_duplicate_email_witness:
  "register demoEnv (demoBody\<lparr>body_email := ''bob@x.com''\<rparr>) demoWorld
     = (Send ''User already exists with this email.'', demoWorld)"
proof -
  have m: "bob \<in> set (users demoWorld)" by (simp add: demoWorld_def)
  have e: "email bob = body_email (demoBody\<lparr>body_email := ''bob@x.com''\<rparr>)"
    by (simp add: bob_def)
  have ok: "storeOk demoEnv" by (simp add: demoEnv_def)
  from register_duplicate_email [OF m e, of demoEnv] ok show ?thesis by simp
qed

text \<open>
  Claim C6. A registration that answers with the success page has appended one account
  to the collection, with role \<^verbatim>\<open>customer\<close>, status \<^verbatim>\<open>active\<close>, not verified, the
  verification token the generator returned, and an expiry of \<^verbatim>\<open>Date.now()\<close> plus
  3600000 ms, so that the token is not expired at any time up to that expiry. The
  password reaches the document only as the result of \<^verbatim>\<open>bcrypt.hash\<close> with 12 salt
  rounds: a request with another password that the hasher maps to the same hash
  leaves the very same state.
\<close>

theorem register_new_account:
  assumes "register env body w = (registrationSuccessful, w')"
  shows "\<exists>a. users w' = users w @ [a] \<and> sessions w' = sessions w
    \<and> email a = body_email body
    \<and> role a = ''customer'' \<and> accountStatus a = ''active'' \<and> \<not> isEmailVerified a
    \<and> passwordHash a = bcryptHash env (body_password body) 12
    \<and> verificationToken a = Some (tokenUuid env)
    \<and> tokenExpiry a = Some (dateNow env + 3600000)
    \<and> (\<forall>t. t \<le> dateNow env + 3600000 \<longrightarrow> \<not> tokenExpired a t)
    \<and> (\<forall>p'. bcryptHash env p' 12 = bcryptHash env (body_password body) 12 \<longrightarrow>
          register env (body\<lparr>body_password := p'\<rparr>) w = (registrationSuccessful, w'))"
proof -
  have ne1: "registrationSuccessful \<noteq> somethingWentWrong"
    and ne2: "registrationSuccessful \<noteq> Send ''User already exists with this email.''"
    by (simp_all add: registrationSuccessful_def somethingWentWrong_def)
  from assms ne1 have ok: "storeOk env"
    by (cases "storeOk env") (simp_all add: register_def)
  from assms ne2 ok have free: "findOne (\<lambda>u. email u = body_email body) (users w) = None"
    by (cases "findOne (\<lambda>u. email u = body_email body) (users w)") (simp_all add: register_def)
  from assms ne1 ok free have mail: "mailOk env"
    by (cases "mailOk env") (simp_all add: register_def Let_def)
  from assms ok free mail have w': "w' = w\<lparr>users := users w @ [newUser env body]\<rparr>"
    by (simp add: register_def insertOne_def)
  have same: "bcryptHash env p' 12 = bcryptHash env (body_password body) 12 \<Longrightarrow>
      newUser env (body\<lparr>body_password := p'\<rparr>) = newUser env body" for p'
    by (simp add: newUser_def saltRounds_def)
  have indep: "\<forall>p'. bcryptHash env p' 12 = bcryptHash env (body_password body) 12 \<longrightarrow>
          register env (body\<lparr>body_password := p'\<rparr>) w = (registrationSuccessful, w')"
    using ok free mail w' by (simp add: register_def insertOne_def same)
  have fields: "users w' = users w @ [newUser env body] \<and> sessions w' = sessions w
    \<and> email (newUser env body) = body_email body
    \<and> role (newUser env body) = ''customer'' \<and> accountStatus (newUser env body) = ''active''
    \<and> \<not> isEmailVerified (newUser env body)
    \<and> passwordHash (newUser env body) = bcryptHash env (body_password body) 12
    \<and> verificationToken (newUser env body) = Some (tokenUuid env)
    \<and> tokenExpiry (newUser env body) = Some (dateNow env + 3600000)
    \<and> (\<forall>t. t \<le> dateNow env + 3600000 \<longrightarrow> \<not> tokenExpired (newUser env body) t)"
    using w' by (simp add: newUser_def saltRounds_def tokenExpired_def)
  from fields indep show ?thesis by blast
qed

theorem register_new_account_witness:
  "users (snd (register demoEnv demoBody demoWorld)) = [ann, bob, cat, dan,
      \<lparr> oid = 14, userId = ''u-eve'', firstName = ''Eve'', lastName = ''E'',
        email = ''eve@x.com'', passwordHash = ''$2b$5wp'', role = ''customer'',
        accountStatus = ''active'', isEmailVerified = False, verificationToken = Some ''tok-eve'',
        tokenExpiry = Some 3601002, createdAt = 1000, updatedAt = 1000 \<rparr>]
   \<and> fst (register demoEnv demoBody demoWorld) = registrationSuccessful"
proof -
  have r: "register demoEnv demoBody demoWorld =
      (registrationSuccessful, demoWorld\<lparr>users := users demoWorld @ [newUser demoEnv demoBody]\<rparr>)"
    by (simp add: register_def insertOne_def demoWorld_def demoEnv_def demoBody_def
        ann_def bob_def cat_def dan_def)
  from register_new_account [OF r] obtain a where
    a: "users demoWorld @ [newUser demoEnv demoBody] = users demoWorld @ [a]"
      "role a = ''customer''" "accountStatus a = ''active''" "\<not> isEmailVerified a"
      "verificationToken a = Some (tokenUuid demoEnv)"
      "tokenExpiry a = Some (dateNow demoEnv + 3600000)"
    by auto
  have "newUser demoEnv demoBody = \<lparr> oid = 14, userId = ''u-eve'', firstName = ''Eve'', lastName = ''E'',
        email = ''eve@x.com'', passwordHash = ''$2b$5wp'', role = ''customer'',
        accountStatus = ''active'', isEmailVerified = False, verificationToken = Some ''tok-eve'',
        tokenExpiry = Some 3601002, createdAt = 1000, updatedAt = 1000 \<rparr>"
    by (simp add: newUser_def demoEnv_def demoBody_def demoHash_def saltRounds_def)
  with r a show ?thesis by (simp add: demoWorld_def)
qed

subsection \<open>Email verification\<close>

text \<open>
  Claim C2. When exactly one account carries the token and its expiry is not in the past,
  verification answers with the success page and one update changes that account alone:
  \<open>isEmailVerified\<close> becomes true and both \<open>verificationToken\<close> and \<open>tokenExpiry\<close> are
  removed. A second verification with the same token, at any later time, finds no
  account and answers \<^verbatim>\<open>Invalid or expired verification link.\<close> (NotFound), leaving
  the state as the first call left it.
\<close>

theorem verify_valid_token:
  assumes "filter (\<lambda>u. verificationToken u = Some token) (users w) = [a]"
    and "\<not> tokenExpired a now"
  shows "\<exists>pre post. users w = pre @ a # post
    \<and> (\<forall>x\<in>set pre. verificationToken x \<noteq> Some token)
    \<and> verify True now token w =
        (emailVerified,
         w\<lparr>users := pre @ a\<lparr>isEmailVerified := True, verificationToken := None,
                               tokenExpiry := None\<rparr> # post\<rparr>)
    \<and> verify True now' token (snd (verify True now token w)) =
        (Send ''Invalid or expired verification link.'', snd (verify True now token w))"
proof -
  let ?f = "\<lambda>u. verificationToken u = Some token"
  from filter_single_split [OF assms(1)] obtain pre post where
    us: "users w = pre @ a # post" and pre: "\<forall>x\<in>set pre. \<not> ?f x"
    and post: "\<forall>x\<in>set post. \<not> ?f x" and fa: "?f a"
    by blast
  from pre have fpre: "findOne ?f pre = None" by (simp add: findOne_None_iff)
  from post have fpost: "findOne ?f post = None" by (simp add: findOne_None_iff)
  have found: "findOne ?f (users w) = Some a"
    using us fpre fa by (simp add: findOne_append)
  have upd: "updateOne ?f markVerified (users w) = pre @ markVerified a # post"
    using us pre fa by (simp add: updateOne_split)
  have first: "verify True now token w = (emailVerified, w\<lparr>users := pre @ markVerified a # post\<rparr>)"
    using found assms(2) upd by (simp add: verify_def)
  have gone: "findOne ?f (pre @ markVerified a # post) = None"
    using fpre fpost by (simp add: findOne_append markVerified_def)
  have second: "verify True now' token (w\<lparr>users := pre @ markVerified a # post\<rparr>) =
      (Send ''Invalid or expired verification link.'', w\<lparr>users := pre @ markVerified a # post\<rparr>)"
    using gone by (simp add: verify_def)
  from us pre first second show ?thesis
    unfolding markVerified_def by (intro exI [of _ pre] exI [of _ post]) simp
qed

theorem verify_valid_token_witness:
  "verify True 5000 ''tok-cat'' demoWorld =
     (emailVerified,
      demoWorld\<lparr>users := [ann, bob,
        cat\<lparr>isEmailVerified := True, verificationToken := None, tokenExpiry := None\<rparr>, dan]\<rparr>)
   \<and> fst (verify True 5000 ''tok-cat'' (snd (verify True 5000 ''tok-cat'' demoWorld))) =
       Send ''Invalid or expired verification link.''"
proof -
  have f: "filter (\<lambda>u. verificationToken u = Some ''tok-cat'') (users demoWorld) = [cat]"
    by (simp add: demo_defs)
  have e: "\<not> tokenExpired cat 5000" by (simp add: tokenExpired_def cat_def)
  from verify_valid_token [OF f e, of 5000] obtain pre post where
    p: "users demoWorld = pre @ cat # post"
    and n: "\<forall>x\<in>set pre. verificationToken x \<noteq> Some ''tok-cat''"
    and v: "verify True 5000 ''tok-cat'' demoWorld =
        (emailVerified,
         demoWorld\<lparr>users := pre @ cat\<lparr>isEmailVerified := True, verificationToken := None,
                               tokenExpiry := None\<rparr> # post\<rparr>)"
    and s: "verify True 5000 ''tok-cat'' (snd (verify True 5000 ''tok-cat'' demoWorld)) =
        (Send ''Invalid or expired verification link.'', snd (verify True 5000 ''tok-cat'' demoWorld))"
    by blast
  have "pre @ cat # post = [ann, bob] @ cat # [dan]" using p by (simp add: demoWorld_def)
  moreover have "\<forall>x\<in>set [ann, bob]. verificationToken x \<noteq> Some ''tok-cat''"
    "verificationToken cat = Some ''tok-cat''" by (simp_all add: demo_defs)
  ultimately have "pre = [ann, bob] \<and> cat = cat \<and> post = [dan]"
    using n by (intro split_unique [where f = "\<lambda>u. verificationToken u = Some ''tok-cat''"]) simp_all
  with v s show ?thesis by simp
qed

text \<open>
  Claim C7. When the account found for the token has an expiry in the past, verification
  answers \<^verbatim>\<open>Verification link expired.\<close> (ExpiredToken) and the state is unchanged, so
  the account is as unverified as before and keeps its token and expiry.
\<close>

theorem verify_expired_token:
  assumes "findOne (\<lambda>u. verificationToken u = Some token) (users w) = Some a"
    and "tokenExpiry a = Some t" and "t < now"
  shows "verify True now token w = (Send ''Verification link expired.'', w)
    \<and> snd (verify dbOk now token w) = w"
  using assms by (simp add: verify_def tokenExpired_def)

theorem verify_expired_token_witness:
  "verify True 5001 ''tok-cat'' demoWorld = (Send ''Verification link expired.'', demoWorld)
   \<and> \<not> isEmailVerified cat \<and> verificationToken cat = Some ''tok-cat''"
proof -
  have f: "findOne (\<lambda>u. verificationToken u = Some ''tok-cat'') (users demoWorld) = Some cat"
    and e: "tokenExpiry cat = Some 5000" and v: "\<not> isEmailVerified cat"
    and t: "verificationToken cat = Some ''tok-cat''"
    by (simp_all add: demo_defs)
  have l: "(5000::int) < 5001" by simp
  from verify_expired_token [OF f e l] v t show ?thesis by simp
qed

subsection \<open>Admin actions\<close>

text \<open>
  Claim C8. For an identifier that parses to the \<^verbatim>\<open>_id\<close> of an account in the
  collection, the role update changes that account alone, the first with this \<^verbatim>\<open>_id\<close>,
  and on it only \<open>role\<close> (to the new role) and \<open>updatedAt\<close> (to the current date): every
  other field, every other account and the sessions are as before.
\<close>

theorem updateRole_frame:
  assumes "mkObjectId reqUserId = Some i"
    and "findOne (\<lambda>u. oid u = i) (users w) = Some a"
  shows "\<exists>pre post. users w = pre @ a # post \<and> (\<forall>x\<in>set pre. oid x \<noteq> i)
    \<and> updateRole True mkObjectId now reqUserId newRole w =
        (Json True (''Role updated to '' @ newRole),
         w\<lparr>users := pre @ a\<lparr>role := newRole, updatedAt := now\<rparr> # post\<rparr>)"
proof -
  from updateOne_found [OF assms(2), of "\<lambda>u. u\<lparr>role := newRole, updatedAt := now\<rparr>"]
  obtain pre post where s: "users w = pre @ a # post" and p: "\<forall>x\<in>set pre. oid x \<noteq> i"
    and u: "updateOne (\<lambda>u. oid u = i) (\<lambda>u. u\<lparr>role := newRole, updatedAt := now\<rparr>) (users w)
              = pre @ a\<lparr>role := newRole, updatedAt := now\<rparr> # post"
    by blast
  from assms(1) u have "updateRole True mkObjectId now reqUserId newRole w =
        (Json True (''Role updated to '' @ newRole),
         w\<lparr>users := pre @ a\<lparr>role := newRole, updatedAt := now\<rparr> # post\<rparr>)"
    by (simp add: updateRole_def)
  with s p show ?thesis by blast
qed

theorem updateRole_frame_witness:
  "updateRole True demoObjectId 900 ''0c'' ''Employee'' demoWorld =
     (Json True ''Role updated to Employee'',
      demoWorld\<lparr>users := [ann, bob, cat\<lparr>role := ''Employee'', updatedAt := 900\<rparr>, dan]\<rparr>)
   \<and> isEmailVerified (cat\<lparr>role := ''Employee'', updatedAt := 900\<rparr>) = isEmailVerified cat
   \<and> accountStatus (cat\<lparr>role := ''Employee'', updatedAt := 900\<rparr>) = accountStatus cat"
proof -
  have o: "demoObjectId ''0c'' = Some 12" by (simp add: demoObjectId_def)
  have f: "findOne (\<lambda>u. oid u = 12) (users demoWorld) = Some cat"
    by (simp add: demo_defs)
  from updateRole_frame [where mkObjectId = demoObjectId and reqUserId = "''0c''" and now = 900
      and newRole = "''Employee''", OF o f] obtain pre post where
    p: "users demoWorld = pre @ cat # post" and n: "\<forall>x\<in>set pre. oid x \<noteq> 12"
    and r: "updateRole True demoObjectId 900 ''0c'' ''Employee'' demoWorld =
        (Json True (''Role updated to '' @ ''Employee''),
         demoWorld\<lparr>users := pre @ cat\<lparr>role := ''Employee'', updatedAt := 900\<rparr> # post\<rparr>)"
    by blast
  have "pre @ cat # post = [ann, bob] @ cat # [dan]" using p by (simp add: demoWorld_def)
  moreover have "\<forall>x\<in>set [ann, bob]. oid x \<noteq> 12" "oid cat = 12" by (simp_all add: demo_defs)
  ultimately have "pre = [ann, bob] \<and> cat = cat \<and> post = [dan]"
    using n by (intro split_unique [where f = "\<lambda>u. oid u = 12"]) simp_all
  with r show ?thesis by simp
qed

text \<open>
  Claim C9. For an identifier that parses to the \<^verbatim>\<open>_id\<close> of an account in the
  collection, archiving sets the status of that account to \<^verbatim>\<open>resigned\<close> and refreshes
  \<open>updatedAt\<close>; the sessions are exactly as before, and every role-gated route answers
  each session as it did before the archival.
\<close>

theorem archiveEmployee_keeps_sessions:
  assumes "mkObjectId reqUserId = Some i"
    and "findOne (\<lambda>u. oid u = i) (users w) = Some a"
  shows "\<exists>pre post. users w = pre @ a # post \<and> (\<forall>x\<in>set pre. oid x \<noteq> i)
    \<and> archiveEmployee True mkObjectId now reqUserId w =
        (Json True ''Employee marked as Resigned'',
         w\<lparr>users := pre @ a\<lparr>accountStatus := ''resigned'', updatedAt := now\<rparr> # post\<rparr>)
    \<and> sessions (snd (archiveEmployee True mkObjectId now reqUserId w)) = sessions w
    \<and> (\<forall>r s. fst (gatedGet r s (snd (archiveEmployee True mkObjectId now reqUserId w)))
               = fst (gatedGet r s w))"
proof -
  from updateOne_found [OF assms(2), of "\<lambda>u. u\<lparr>accountStatus := ''resigned'', updatedAt := now\<rparr>"]
  obtain pre post where s: "users w = pre @ a # post" and p: "\<forall>x\<in>set pre. oid x \<noteq> i"
    and u: "updateOne (\<lambda>u. oid u = i) (\<lambda>u. u\<lparr>accountStatus := ''resigned'', updatedAt := now\<rparr>)
              (users w) = pre @ a\<lparr>accountStatus := ''resigned'', updatedAt := now\<rparr> # post"
    by blast
  from assms(1) u have r: "archiveEmployee True mkObjectId now reqUserId w =
        (Json True ''Employee marked as Resigned'',
         w\<lparr>users := pre @ a\<lparr>accountStatus := ''resigned'', updatedAt := now\<rparr> # post\<rparr>)"
    by (simp add: archiveEmployee_def)
  then have k: "sessions (snd (archiveEmployee True mkObjectId now reqUserId w)) = sessions w"
    by simp
  then have g: "\<forall>r s. fst (gatedGet r s (snd (archiveEmployee True mkObjectId now reqUserId w)))
               = fst (gatedGet r s w)"
    using gatedGet_sessions [OF k] by blast
  from s p r k g show ?thesis by blast
qed

theorem archiveEmployee_keeps_sessions_witness:
  "archiveEmployee True demoObjectId 950 ''0a'' demoWorld =
     (Json True ''Employee marked as Resigned'',
      demoWorld\<lparr>users := [ann\<lparr>accountStatus := ''resigned'', updatedAt := 950\<rparr>, bob, cat, dan]\<rparr>)
   \<and> sessions (snd (archiveEmployee True demoObjectId 950 ''0a'' demoWorld)) ''s-ann''
       = Some (sessionUserOf ann)
   \<and> fst (gatedGet AdminDashboardRoute ''s-ann''
            (snd (archiveEmployee True demoObjectId 950 ''0a'' demoWorld)))
       = fst (gatedGet AdminDashboardRoute ''s-ann'' demoWorld)"
proof -
  have o: "demoObjectId ''0a'' = Some 10" by (simp add: demoObjectId_def)
  have f: "findOne (\<lambda>u. oid u = 10) (users demoWorld) = Some ann"
    by (simp add: demo_defs)
  from archiveEmployee_keeps_sessions [where mkObjectId = demoObjectId and reqUserId = "''0a''"
      and now = 950, OF o f] obtain pre post where
    p: "users demoWorld = pre @ ann # post" and n: "\<forall>x\<in>set pre. oid x \<noteq> 10"
    and r: "archiveEmployee True demoObjectId 950 ''0a'' demoWorld =
        (Json True ''Employee marked as Resigned'',
         demoWorld\<lparr>users := pre @ ann\<lparr>accountStatus := ''resigned'', updatedAt := 950\<rparr> # post\<rparr>)"
    and k: "sessions (snd (archiveEmployee True demoObjectId 950 ''0a'' demoWorld)) = sessions demoWorld"
    and g: "\<forall>r s. fst (gatedGet r s (snd (archiveEmployee True demoObjectId 950 ''0a'' demoWorld)))
               = fst (gatedGet r s demoWorld)"
    by blast
  have "pre @ ann # post = [] @ ann # [bob, cat, dan]" using p by (simp add: demoWorld_def)
  moreover have "oid ann = 10" by (simp add: ann_def)
  ultimately have pp: "pre = [] \<and> ann = ann \<and> post = [bob, cat, dan]"
    using n by (intro split_unique [where f = "\<lambda>u. oid u = 10"]) simp_all
  have sa: "sessions demoWorld ''s-ann'' = Some (sessionUserOf ann)"
    by (simp add: demoWorld_def)
  from g have "fst (gatedGet AdminDashboardRoute ''s-ann''
            (snd (archiveEmployee True demoObjectId 950 ''0a'' demoWorld)))
       = fst (gatedGet AdminDashboardRoute ''s-ann'' demoWorld)" by blast
  with pp sa r k show ?thesis by (simp del: gatedGet.simps)
qed

end
